theory Spec2Isabelle
  imports Complex_Main "HOL-Library.Sublist"
begin

section \<open>The sliding-window rate limiter (src/utils/rate\_limit.py)\<close>

text \<open>
  \<^verbatim>\<open>REQUESTS = defaultdict(list)\<close> maps a client identifier to the list of the
  timestamps of its admitted requests. A missing key reads as the empty list, and
  the assignment \<^verbatim>\<open>REQUESTS[client_id] = [...]\<close> creates the key.

  Timestamps are the readings of \<^verbatim>\<open>time.time()\<close>. They are modelled as real
  numbers: the only operations on them are one subtraction and comparisons. The
  clock reading \<open>now\<close> is an argument of the model, and so are the two module
  constants, which the tests of the repository replace by other values.
\<close>

type_synonym requests = "string \<rightharpoonup> real list"

definition MAX_REQUESTS :: int where
  "MAX_REQUESTS = 600"

definition WINDOW_SECONDS :: real where
  "WINDOW_SECONDS = 60"

definition requests_of :: "requests \<Rightarrow> string \<Rightarrow> real list" where
  "requests_of REQUESTS client_id =
     (case REQUESTS client_id of None \<Rightarrow> [] | Some ts \<Rightarrow> ts)"

definition rate_limiter ::
  "int \<Rightarrow> real \<Rightarrow> real \<Rightarrow> string \<Rightarrow> requests \<Rightarrow> bool \<times> requests" where
  "rate_limiter max_requests window_seconds now client_id REQUESTS =
     (let window_start = now - window_seconds;
          kept = filter (\<lambda>t. t > window_start) (requests_of REQUESTS client_id);
          pruned = REQUESTS(client_id \<mapsto> kept)
      in if int (length kept) \<ge> max_requests
         then (False, pruned)
         else (True, pruned(client_id \<mapsto> kept @ [now])))"

text \<open>
  A sequence of calls, each with its clock reading and its client, threaded
  through the store; the results are collected in call order.
\<close>

fun rate_limiter_calls ::
  "int \<Rightarrow> real \<Rightarrow> (real \<times> string) list \<Rightarrow> requests \<Rightarrow> bool list \<times> requests" where
  "rate_limiter_calls max_requests window_seconds [] REQUESTS = ([], REQUESTS)"
| "rate_limiter_calls max_requests window_seconds ((now, client_id) # calls) REQUESTS =
     (let (r, REQUESTS') = rate_limiter max_requests window_seconds now client_id REQUESTS;
          (rs, REQUESTS'') = rate_limiter_calls max_requests window_seconds calls REQUESTS'
      in (r # rs, REQUESTS''))"


text \<open>
  The invariant of the store between calls, for the limit \<open>mx\<close> and a clock
  reading \<open>T\<close> not earlier than any call made so far: every client's list is
  ascending, has at most \<open>mx\<close> entries, and holds no timestamp later than \<open>T\<close>.
\<close>

definition window_inv :: "int \<Rightarrow> real \<Rightarrow> requests \<Rightarrow> bool" where
  "window_inv mx T R \<longleftrightarrow>
     (\<forall>d. sorted (requests_of R d) \<and> int (length (requests_of R d)) \<le> mx
          \<and> (\<forall>t \<in> set (requests_of R d). t \<le> T))"


section \<open>The tabular store (src/utils/parquet.py)\<close>

text \<open>
  A row of \<^verbatim>\<open>data/stops.parquet\<close>. The rows returned by the four queries of the
  controller carry subsets of these columns, so the columns are grouped in record
  extensions: every result row has the identifier and the name.

  Latitudes, longitudes and distances are modelled as real numbers, and the SQL
  functions \<^verbatim>\<open>SIN\<close>, \<^verbatim>\<open>COS\<close>, \<^verbatim>\<open>ASIN\<close>, \<^verbatim>\<open>SQRT\<close>, \<^verbatim>\<open>POWER\<close>, \<^verbatim>\<open>RADIANS\<close> as the
  functions on the reals; the rounding of double-precision arithmetic is outside
  the model. Strings are byte strings; \<^verbatim>\<open>UPPER\<close>, \<^verbatim>\<open>str.upper\<close> and the case
  folding of \<^verbatim>\<open>ILIKE\<close> change the ASCII letters only. The \<^verbatim>\<open>limit\<close> and
  \<^verbatim>\<open>offset\<close> arguments are natural numbers (the routes validate them so).
\<close>

record stop_id =
  stop_code :: int
  stop_name :: string

record stop_summary = stop_id +
  latitude :: real
  longitude :: real
  parent_station :: "string option"

record stop = stop_summary +
  x_meters :: "real option"
  y_meters :: "real option"

record ref_stop = stop_id +
  stop_lat :: real
  stop_lon :: real

record nearby_stop = stop_summary +
  distance_m :: real

datatype error =
    HTTPException int string
  | FileNotFoundError string

text \<open>
  \<^verbatim>\<open>query_stops(sql, params)\<close> raises \<^verbatim>\<open>FileNotFoundError\<close> when the parquet file
  does not exist, and otherwise returns the rows the statement selects from the
  view \<^verbatim>\<open>stops\<close>. The dataset is \<open>None\<close> when the file is missing; an SQL
  statement with its bound parameters is the function from the table to its rows.
\<close>

definition query_stops :: "stop list option \<Rightarrow> (stop list \<Rightarrow> 'r list) \<Rightarrow> error + 'r list" where
  "query_stops dataset sql =
     (case dataset of
        None \<Rightarrow> Inl (FileNotFoundError ''Parquet file not found at data/stops.parquet'')
      | Some stops \<Rightarrow> Inr (sql stops))"


section \<open>The SQL of the controller (src/controllers/bus\_stop\_controller.py)\<close>

definition upper_char :: "char \<Rightarrow> char" where
  "upper_char c =
     (let n = (of_char c :: nat) in if 97 \<le> n \<and> n \<le> 122 then char_of (n - 32) else c)"

definition lower_char :: "char \<Rightarrow> char" where
  "lower_char c =
     (let n = (of_char c :: nat) in if 65 \<le> n \<and> n \<le> 90 then char_of (n + 32) else c)"

definition UPPER :: "string \<Rightarrow> string" where
  "UPPER s = map upper_char s"

definition str_upper :: "string \<Rightarrow> string" where
  "str_upper s = map upper_char s"

text \<open>
  \<^verbatim>\<open>s LIKE p\<close>: in the pattern \<^verbatim>\<open>%\<close> stands for any run of characters and
  \<^verbatim>\<open>_\<close> for any one character; no escape character is declared by the
  statements of the controller. \<^verbatim>\<open>ILIKE\<close> is \<^verbatim>\<open>LIKE\<close> without regard to case.
\<close>

fun like :: "string \<Rightarrow> string \<Rightarrow> bool" where
  "like s [] = (s = [])"
| "like s (p # ps) =
     (if p = CHR ''%''
      then like s ps \<or> (case s of [] \<Rightarrow> False | _ # s' \<Rightarrow> like s' (p # ps))
      else (case s of [] \<Rightarrow> False | c # s' \<Rightarrow> (p = CHR ''_'' \<or> p = c) \<and> like s' ps))"

definition ILIKE :: "string \<Rightarrow> string \<Rightarrow> bool" where
  "ILIKE s p = like (map lower_char s) (map lower_char p)"

definition RADIANS :: "real \<Rightarrow> real" where
  "RADIANS x = x * pi / 180"

text \<open>
  The \<^verbatim>\<open>distance_m\<close> column of the two nearby statements; \<open>p1\<close>, \<open>p2\<close>, \<open>p3\<close> are
  the three bound parameters in the order of their placeholders.
\<close>

definition distance_m_sql :: "real \<Rightarrow> real \<Rightarrow> real \<Rightarrow> real \<Rightarrow> real \<Rightarrow> real" where
  "distance_m_sql p1 p2 p3 s_latitude s_longitude =
     2 * 6371000 * arcsin (
       sqrt (
         (sin (RADIANS (s_latitude - p1) / 2))\<^sup>2 +
         cos (RADIANS p2) * cos (RADIANS s_latitude) *
         (sin (RADIANS (s_longitude - p3) / 2))\<^sup>2))"

definition summary_of :: "stop \<Rightarrow> stop_summary" where
  "summary_of s =
     \<lparr>stop_code = stop_code s, stop_name = UPPER (stop_name s),
      latitude = latitude s, longitude = longitude s,
      parent_station = parent_station s\<rparr>"

text \<open>The statement of \<^verbatim>\<open>list_stops\<close>, with and without the \<^verbatim>\<open>WHERE\<close> clause.\<close>

definition list_sql :: "string option \<Rightarrow> nat \<Rightarrow> nat \<Rightarrow> stop list \<Rightarrow> stop_summary list" where
  "list_sql name_pattern limit offset stops =
     take limit (drop offset (sort_key stop_code (map summary_of
       (filter (\<lambda>s. case name_pattern of None \<Rightarrow> True
                                       | Some p \<Rightarrow> ILIKE (stop_name s) p) stops))))"

text \<open>The statement of \<^verbatim>\<open>get_stop_by_code\<close>.\<close>

definition by_code_sql :: "int \<Rightarrow> stop list \<Rightarrow> stop list" where
  "by_code_sql code stops =
     map (\<lambda>s. s\<lparr>stop_name := UPPER (stop_name s)\<rparr>) (filter (\<lambda>s. stop_code s = code) stops)"

text \<open>The reference statement of \<^verbatim>\<open>get_nearby_by_name\<close>.\<close>

definition ref_sql :: "string \<Rightarrow> stop list \<Rightarrow> ref_stop list" where
  "ref_sql pattern stops =
     take 1 (sort_key stop_code (map
       (\<lambda>s. \<lparr>stop_code = stop_code s, stop_name = UPPER (stop_name s),
             stop_lat = latitude s, stop_lon = longitude s\<rparr>)
       (filter (\<lambda>s. ILIKE (UPPER (stop_name s)) pattern) stops)))"

text \<open>
  The nearby statement, the same text in both nearby functions: first the rows
  with their distance column in the order of \<^verbatim>\<open>ORDER BY distance_m\<close>, then
  \<^verbatim>\<open>LIMIT\<close>.
\<close>

definition nearby_ordered :: "real \<Rightarrow> real \<Rightarrow> real \<Rightarrow> stop list \<Rightarrow> nearby_stop list" where
  "nearby_ordered p1 p2 p3 stops =
     sort_key distance_m (map
       (\<lambda>s. \<lparr>stop_code = stop_code s, stop_name = UPPER (stop_name s),
             latitude = latitude s, longitude = longitude s,
             parent_station = parent_station s,
             distance_m = distance_m_sql p1 p2 p3 (latitude s) (longitude s)\<rparr>)
       stops)"

definition nearby_sql :: "real \<Rightarrow> real \<Rightarrow> real \<Rightarrow> nat \<Rightarrow> stop list \<Rightarrow> nearby_stop list" where
  "nearby_sql p1 p2 p3 limit stops = take limit (nearby_ordered p1 p2 p3 stops)"


section \<open>The controller functions\<close>

text \<open>
  The responses are the dictionaries the functions return: \<open>count\<close> and
  \<open>results\<close> in all four, \<open>radius_m\<close> and the reference in the nearby ones. The
  \<^verbatim>\<open>reference_coords\<close> dictionary is the pair of its latitude and longitude.
  An \<^verbatim>\<open>HTTPException\<close> carries its status code and its detail.
\<close>

record 'r counted =
  count :: int
  results :: "'r list"

record nearby_response = "nearby_stop counted" +
  radius_m :: real

record by_name_response = nearby_response +
  reference_stop :: ref_stop

record by_coords_response = nearby_response +
  reference_coords :: "real \<times> real"

fun str_nat :: "nat \<Rightarrow> string" where
  "str_nat n =
     (if n < 10 then [char_of (48 + n)]
      else str_nat (n div 10) @ [char_of (48 + n mod 10)])"

definition str_int :: "int \<Rightarrow> string" where
  "str_int i = (if i < 0 then CHR ''-'' # str_nat (nat (- i)) else str_nat (nat i))"

definition list_stops ::
  "stop list option \<Rightarrow> nat \<Rightarrow> nat \<Rightarrow> string option \<Rightarrow> error + stop_summary counted" where
  "list_stops dataset limit offset name =
     (let name_pattern = (case name of None \<Rightarrow> None
                          | Some n \<Rightarrow> if n = [] then None else Some (''%'' @ n @ ''%''))
      in case query_stops dataset (list_sql name_pattern limit offset) of
           Inl e \<Rightarrow> Inl e
         | Inr stops \<Rightarrow> Inr \<lparr>count = int (length stops), results = stops\<rparr>)"

definition get_stop_by_code :: "stop list option \<Rightarrow> int \<Rightarrow> error + stop counted" where
  "get_stop_by_code dataset code =
     (case query_stops dataset (by_code_sql code) of
        Inl e \<Rightarrow> Inl e
      | Inr rs \<Rightarrow>
          if rs \<noteq> [] then Inr \<lparr>count = int (length rs), results = rs\<rparr>
          else Inl (HTTPException 404 (''Stop Code '' @ str_int code @ '' not found'')))"

definition get_nearby_by_name ::
  "stop list option \<Rightarrow> string \<Rightarrow> real \<Rightarrow> nat \<Rightarrow> error + by_name_response" where
  "get_nearby_by_name dataset name radius limit =
     (case query_stops dataset (ref_sql (''%'' @ str_upper name @ ''%'')) of
        Inl e \<Rightarrow> Inl e
      | Inr ref_results \<Rightarrow>
          (case ref_results of
             [] \<Rightarrow> Inl (HTTPException 404
                     (''No stop found with name like '' @ [CHR 0x27] @ name @ [CHR 0x27]))
           | ref # _ \<Rightarrow>
               (let ref_lat = stop_lat ref; ref_lon = stop_lon ref
                in case query_stops dataset (nearby_sql ref_lat ref_lat ref_lon limit) of
                     Inl e \<Rightarrow> Inl e
                   | Inr nearby \<Rightarrow>
                       (let nearby' = filter (\<lambda>st. distance_m st \<le> radius) nearby
                        in Inr \<lparr>count = int (length nearby'), results = nearby',
                                radius_m = radius, reference_stop = ref\<rparr>))))"

definition get_nearby_by_coords ::
  "stop list option \<Rightarrow> real \<Rightarrow> real \<Rightarrow> real \<Rightarrow> nat \<Rightarrow> error + by_coords_response" where
  "get_nearby_by_coords dataset lat lon radius limit =
     (case query_stops dataset (nearby_sql lat lat lon limit) of
        Inl e \<Rightarrow> Inl e
      | Inr nearby \<Rightarrow>
          (let nearby' = filter (\<lambda>st. distance_m st \<le> radius) nearby
           in Inr \<lparr>count = int (length nearby'), results = nearby',
                   radius_m = radius, reference_coords = (lat, lon)\<rparr>))"


section \<open>The formulas of the specification\<close>

text \<open>
  The haversine distance as the specification writes it: the four angles are
  converted to radians first, then \<open>\<Delta>lat = lat_row - lat_ref\<close> and
  \<open>\<Delta>lon = lon_row - lon_ref\<close>, with \<open>R = 6371000\<close>.
\<close>

definition haversine_spec :: "real \<Rightarrow> real \<Rightarrow> real \<Rightarrow> real \<Rightarrow> real" where
  "haversine_spec lat_ref lon_ref lat_row lon_row =
     (let R = 6371000;
          phi_ref = lat_ref * pi / 180; lam_ref = lon_ref * pi / 180;
          phi_row = lat_row * pi / 180; lam_row = lon_row * pi / 180;
          dlat = phi_row - phi_ref; dlon = lam_row - lam_ref
      in 2 * R * arcsin (sqrt ((sin (dlat / 2))\<^sup>2
                               + cos phi_ref * cos phi_row * (sin (dlon / 2))\<^sup>2)))"





section \<open>A small dataset for concrete evaluations\<close>

text \<open>
  Two stops on the equator, half a turn apart, stored out of identifier order;
  and the rows the statements produce for them from the reference point \<open>(0, 0)\<close>.
\<close>

definition depot :: stop where
  "depot = \<lparr>stop_code = 1, stop_name = ''Stop Albert St'', latitude = 0, longitude = 0,
            parent_station = None, x_meters = None, y_meters = None\<rparr>"

definition far_side :: stop where
  "far_side = \<lparr>stop_code = 2, stop_name = ''Far Side'', latitude = 0, longitude = 180,
               parent_station = Some ''P1'', x_meters = None, y_meters = None\<rparr>"

definition example_stops :: "stop list" where
  "example_stops = [far_side, depot]"

definition depot_row :: nearby_stop where
  "depot_row = \<lparr>stop_code = 1, stop_name = ''STOP ALBERT ST'', latitude = 0, longitude = 0,
                parent_station = None, distance_m = 0\<rparr>"

definition far_side_row :: nearby_stop where
  "far_side_row = \<lparr>stop_code = 2, stop_name = ''FAR SIDE'', latitude = 0, longitude = 180,
                   parent_station = Some ''P1'', distance_m = 6371000 * pi\<rparr>"

definition depot_ref :: ref_stop where
  "depot_ref = \<lparr>stop_code = 1, stop_name = ''STOP ALBERT ST'', stop_lat = 0, stop_lon = 0\<rparr>"


section \<open>Properties of the rate limiter\<close>

lemma requests_of_upd_same [simp]:
  "requests_of (R(c \<mapsto> ts)) c = ts"
  by (simp add: requests_of_def)

lemma requests_of_upd_other [simp]:
  "d \<noteq> c \<Longrightarrow> requests_of (R(c \<mapsto> ts)) d = requests_of R d"
  by (simp add: requests_of_def)

lemma requests_of_empty [simp]:
  "requests_of Map.empty c = []"
  by (simp add: requests_of_def)

text \<open>
  C1. A call computes \<open>window_start = now - WINDOW_SECONDS\<close> and keeps exactly
  the recorded timestamps of the client with \<open>t > window_start\<close>, so a timestamp
  equal to \<open>window_start\<close> is dropped. When the number of kept timestamps is at
  least \<open>MAX_REQUESTS\<close> the call returns false and records nothing; otherwise it
  appends \<open>now\<close> and returns true. With \<open>MAX_REQUESTS = 3\<close> and
  \<open>WINDOW_SECONDS = 60\<close>, four calls of one client at one instant, on a fresh
  store, return true, true, true, false.
\<close>

theorem rate_limiter_admit:
  "(let kept = filter (\<lambda>t. t > now - w) (requests_of REQUESTS c)
    in rate_limiter mx w now c REQUESTS =
         (if int (length kept) \<ge> mx
          then (False, REQUESTS(c \<mapsto> kept))
          else (True, REQUESTS(c \<mapsto> kept @ [now])))
       \<and> set kept = {t \<in> set (requests_of REQUESTS c). \<not> t \<le> now - w}
       \<and> now - w \<notin> set kept)
   \<and> fst (rate_limiter_calls 3 60 [(t0, x), (t0, x), (t0, x), (t0, x)] Map.empty)
       = [True, True, True, False]"
proof -
  have "fst (rate_limiter_calls 3 60 [(t0, x), (t0, x), (t0, x), (t0, x)] Map.empty)
        = [True, True, True, False]"
    by (simp add: rate_limiter_def Let_def)
  then show ?thesis
    by (auto simp: rate_limiter_def Let_def)
qed

theorem rate_limiter_admit_witness:
  "rate_limiter 2 10 12 ''a'' [''a'' \<mapsto> [0, 2, 5]] = (True, [''a'' \<mapsto> [5, 12]])
   \<and> rate_limiter 2 10 12 ''a'' [''a'' \<mapsto> [2, 5, 7]] = (False, [''a'' \<mapsto> [5, 7]])"
  using rate_limiter_admit [of 12 10 "[''a'' \<mapsto> [0, 2, 5]]" "''a''" 2]
        rate_limiter_admit [of 12 10 "[''a'' \<mapsto> [2, 5, 7]]" "''a''" 2]
  by (simp add: Let_def)

lemma window_inv_empty: "0 \<le> mx \<Longrightarrow> window_inv mx T Map.empty"
  by (simp add: window_inv_def)

lemma requests_of_rate_limiter:
  "requests_of (snd (rate_limiter mx w now c R)) d =
     (if d = c
      then (let kept = filter (\<lambda>t. t > now - w) (requests_of R c)
            in if int (length kept) \<ge> mx then kept else kept @ [now])
      else requests_of R d)"
  by (simp add: rate_limiter_def Let_def)

lemma window_inv_step:
  assumes "window_inv mx T R" and "T \<le> now"
  shows "window_inv mx now (snd (rate_limiter mx w now c R))"
proof -
  let ?kept = "filter (\<lambda>t. t > now - w) (requests_of R c)"
  have s: "sorted (requests_of R d)" and l: "int (length (requests_of R d)) \<le> mx" for d
    using assms(1) by (simp_all add: window_inv_def)
  have b: "t \<le> now" if "t \<in> set (requests_of R d)" for t d
    using assms that unfolding window_inv_def by fastforce
  have sk: "sorted ?kept" using s by (simp add: sorted_wrt_filter)
  have bk: "\<forall>t \<in> set ?kept. t \<le> now" using b by auto
  have lk: "int (length ?kept) \<le> mx"
    using l [of c] length_filter_le [of "\<lambda>t. t > now - w" "requests_of R c"] by linarith
  show ?thesis
    unfolding window_inv_def requests_of_rate_limiter
    using s b l sk bk lk by (auto simp: Let_def sorted_append)
qed

lemma window_inv_calls:
  "window_inv mx T R \<Longrightarrow> sorted (T # map fst calls) \<Longrightarrow>
   window_inv mx (last (T # map fst calls)) (snd (rate_limiter_calls mx w calls R))"
proof (induction calls arbitrary: T R)
  case Nil
  then show ?case by simp
next
  case (Cons call calls)
  obtain now c where call: "call = (now, c)" by (cases call)
  have "window_inv mx now (snd (rate_limiter mx w now c R))"
    using Cons.prems call by (intro window_inv_step [of mx T]) auto
  moreover have "sorted (now # map fst calls)"
    using Cons.prems call by simp
  ultimately have "window_inv mx (last (now # map fst calls))
      (snd (rate_limiter_calls mx w calls (snd (rate_limiter mx w now c R))))"
    by (rule Cons.IH)
  then show ?case
    using call by (simp add: split_beta Let_def)
qed

text \<open>
  C2. Take any sequence of calls with non-decreasing clock readings, started on
  the empty store, with \<open>MAX_REQUESTS \<ge> 0\<close> and \<open>WINDOW_SECONDS > 0\<close>, and look
  at the store after its last call \<open>(now, c)\<close> (every prefix of such a sequence
  is such a sequence, so this is the store after each call). Every client's list
  is ascending and has at most \<open>MAX_REQUESTS\<close> entries; every entry of the
  called client's list satisfies \<open>t > now - WINDOW_SECONDS\<close>; and the call was
  admitted iff fewer than \<open>MAX_REQUESTS\<close> timestamps of the client satisfied
  \<open>t > now - WINDOW_SECONDS\<close> when it was made.
\<close>

theorem rate_limiter_invariant:
  assumes "0 \<le> mx" and "0 < w" and "sorted (map fst (calls @ [(now, c)]))"
  shows "(let R = snd (rate_limiter_calls mx w calls Map.empty);
              (r, R') = rate_limiter mx w now c R
          in (\<forall>d. sorted (requests_of R' d) \<and> int (length (requests_of R' d)) \<le> mx)
             \<and> (\<forall>t \<in> set (requests_of R' c). t > now - w)
             \<and> (r \<longleftrightarrow> int (length (filter (\<lambda>t. t > now - w) (requests_of R c))) < mx))"
proof -
  define T where "T = hd (map fst calls @ [now])"
  define R where "R = snd (rate_limiter_calls mx w calls Map.empty)"
  have st: "sorted (T # map fst calls)"
    using assms(3) by (cases calls) (auto simp: T_def sorted_append)
  have le: "last (T # map fst calls) \<le> now"
    using assms(3) by (cases calls rule: rev_cases) (auto simp: T_def sorted_append)
  have "window_inv mx (last (T # map fst calls)) R"
    unfolding R_def using assms(1) st by (intro window_inv_calls window_inv_empty)
  then have "window_inv mx now (snd (rate_limiter mx w now c R))"
    using le by (rule window_inv_step)
  then have a: "\<forall>d. sorted (requests_of (snd (rate_limiter mx w now c R)) d)
        \<and> int (length (requests_of (snd (rate_limiter mx w now c R)) d)) \<le> mx"
    by (simp add: window_inv_def)
  have b: "\<forall>t \<in> set (requests_of (snd (rate_limiter mx w now c R)) c). t > now - w"
    using assms(2) by (auto simp: requests_of_rate_limiter Let_def)
  have c: "fst (rate_limiter mx w now c R)
        \<longleftrightarrow> int (length (filter (\<lambda>t. t > now - w) (requests_of R c))) < mx"
    by (auto simp: rate_limiter_def Let_def)
  show ?thesis
    unfolding Let_def split_beta R_def [symmetric] using a b c by simp
qed

theorem rate_limiter_invariant_witness:
  "(0::int) \<le> 2 \<and> (0::real) < 10
   \<and> sorted (map fst ([(0, ''a''), (1, ''b''), (1, ''a''), (2, ''a'')] @ [(12::real, ''a'')]))
   \<and> rate_limiter 2 10 12 ''a''
       (snd (rate_limiter_calls 2 10 [(0, ''a''), (1, ''b''), (1, ''a''), (2, ''a'')] Map.empty))
     = (True, [''b'' \<mapsto> [1], ''a'' \<mapsto> [12]])"
  using rate_limiter_invariant [of 2 10 "[(0, ''a''), (1, ''b''), (1, ''a''), (2, ''a'')]" 12 "''a''"]
  by (simp add: rate_limiter_def Let_def requests_of_def)

text \<open>
  C7. Window expiry with \<open>MAX_REQUESTS = 2\<close> and \<open>WINDOW_SECONDS = 10\<close>: the calls
  of one client at times 0 and 1 are admitted, the call at time 2 is rejected, the
  call at time 12 is admitted and leaves exactly \<open>[12]\<close> as the client's list.
\<close>

theorem rate_limiter_window_expiry:
  "rate_limiter_calls 2 10 [(0, c), (1, c)] Map.empty = ([True, True], [c \<mapsto> [0, 1]])
   \<and> rate_limiter 2 10 2 c [c \<mapsto> [0, 1]] = (False, [c \<mapsto> [0, 1]])
   \<and> rate_limiter 2 10 12 c [c \<mapsto> [0, 1]] = (True, [c \<mapsto> [12]])
   \<and> rate_limiter_calls 2 10 [(0, c), (1, c), (2, c), (12, c)] Map.empty
       = ([True, True, False, True], [c \<mapsto> [12]])"
  by (simp add: rate_limiter_def Let_def)

text \<open>
  C9. A rejected call still prunes: it leaves the client's list equal to its
  previous in-window timestamps, in their order, with nothing added, and this can
  differ from the list before the call. No call changes the record of another
  client.
\<close>

theorem rate_limiter_frame:
  "(\<not> fst (rate_limiter mx w now c R) \<longrightarrow>
      snd (rate_limiter mx w now c R) c = Some (filter (\<lambda>t. t > now - w) (requests_of R c)))
   \<and> (\<forall>d. d \<noteq> c \<longrightarrow> snd (rate_limiter mx w now c R) d = R d)
   \<and> (\<exists>mx' w' now' R'. \<not> fst (rate_limiter mx' w' now' c R')
                          \<and> snd (rate_limiter mx' w' now' c R') \<noteq> R')"
proof -
  have "\<not> fst (rate_limiter 1 10 12 c [c \<mapsto> [0, 5]])
        \<and> snd (rate_limiter 1 10 12 c [c \<mapsto> [0, 5]]) \<noteq> [c \<mapsto> [0, 5]]"
    by (simp add: rate_limiter_def Let_def fun_eq_iff)
  then have "\<exists>mx' w' now' R'. \<not> fst (rate_limiter mx' w' now' c R')
                          \<and> snd (rate_limiter mx' w' now' c R') \<noteq> R'"
    by blast
  then show ?thesis
    by (simp add: rate_limiter_def Let_def)
qed

theorem rate_limiter_frame_witness:
  "\<not> fst (rate_limiter 1 10 12 ''a'' [''a'' \<mapsto> [0, 5], ''b'' \<mapsto> [1]])
   \<and> ''b'' \<noteq> ''a''
   \<and> snd (rate_limiter 1 10 12 ''a'' [''a'' \<mapsto> [0, 5], ''b'' \<mapsto> [1]]) ''a'' = Some [5]
   \<and> snd (rate_limiter 1 10 12 ''a'' [''a'' \<mapsto> [0, 5], ''b'' \<mapsto> [1]]) ''b'' = Some [1]"
  using rate_limiter_frame [of 1 10 12 "''a''" "[''a'' \<mapsto> [0, 5], ''b'' \<mapsto> [1]]"]
  by (simp add: rate_limiter_def Let_def)


section \<open>Properties of the distance column\<close>

lemma hav_identity:
  fixes x y :: real
  shows "(sin ((y - x) / 2))\<^sup>2 + cos x * cos y = (cos ((x + y) / 2))\<^sup>2"
proof -
  have e: "2 * ((y - x) / 2) = y - x" "2 * ((x + y) / 2) = x + y"
    by simp_all
  have "cos (y - x) = 1 - 2 * (sin ((y - x) / 2))\<^sup>2"
    using cos_double_sin [of "(y - x) / 2"] by (simp only: e)
  then have 1: "(sin ((y - x) / 2))\<^sup>2 = (1 - cos (y - x)) / 2"
    by simp
  have "cos (x + y) = 2 * (cos ((x + y) / 2))\<^sup>2 - 1"
    using cos_double_cos [of "(x + y) / 2"] by (simp only: e)
  then have 2: "(cos ((x + y) / 2))\<^sup>2 = (1 + cos (x + y)) / 2"
    by simp
  show ?thesis
    unfolding 1 2 by (simp add: cos_add cos_diff field_simps)
qed

lemma hav_arg_bounds:
  fixes x y d :: real
  defines "a \<equiv> (sin ((y - x) / 2))\<^sup>2 + cos x * cos y * (sin (d / 2))\<^sup>2"
  shows "0 \<le> a" and "a \<le> 1"
proof -
  define s where "s = (sin (d / 2))\<^sup>2"
  define A where "A = (sin ((y - x) / 2))\<^sup>2"
  define B where "B = (cos ((x + y) / 2))\<^sup>2"
  have s: "0 \<le> s" "s \<le> 1" and A: "0 \<le> A" "A \<le> 1" and B: "0 \<le> B" "B \<le> 1"
    by (simp_all add: s_def A_def B_def abs_square_le_1)
  have "A + cos x * cos y = B"
    unfolding A_def B_def by (rule hav_identity)
  then have cxy: "cos x * cos y = B - A"
    by simp
  have "a = A + (cos x * cos y) * s"
    by (simp add: a_def s_def A_def)
  also have "\<dots> = (1 - s) * A + s * B"
    unfolding cxy by (simp add: algebra_simps)
  finally have a: "a = (1 - s) * A + s * B" .
  have "0 \<le> (1 - s) * A" "0 \<le> s * B"
    using s A B by simp_all
  then show "0 \<le> a" unfolding a by linarith
  have "(1 - s) * A \<le> 1 - s"
    using mult_left_mono [of A 1 "1 - s"] s A by simp
  moreover have "s * B \<le> s"
    using mult_left_mono [of B 1 s] s B by simp
  ultimately show "a \<le> 1" unfolding a by linarith
qed

lemma RADIANS_diff: "RADIANS (a - b) = RADIANS a - RADIANS b"
  by (simp add: RADIANS_def field_simps)

lemma distance_m_sql_nonneg: "0 \<le> distance_m_sql p p q lat lon"
proof -
  let ?a = "(sin ((RADIANS lat - RADIANS p) / 2))\<^sup>2
              + cos (RADIANS p) * cos (RADIANS lat) * (sin (RADIANS (lon - q) / 2))\<^sup>2"
  have "0 \<le> ?a" "?a \<le> 1"
    by (rule hav_arg_bounds)+
  then have "sqrt ?a \<in> {0..1}"
    by simp
  then have "0 \<le> arcsin (sqrt ?a)"
    by (rule arcsin_nonneg)
  then show ?thesis
    by (simp add: distance_m_sql_def RADIANS_diff)
qed

lemma sum_lessThan_8:
  fixes g :: "nat \<Rightarrow> real"
  shows "(\<Sum>m<8. g m) = g 0 + g 1 + g 2 + g 3 + g 4 + g 5 + g 6 + g 7"
  by (simp add: eval_nat_numeral)

lemma sin_coeff_values:
  "sin_coeff 1 = 1" "sin_coeff 2 = 0" "sin_coeff 3 = - 1 / 6" "sin_coeff 4 = 0"
  "sin_coeff 5 = 1 / 120" "sin_coeff 6 = 0" "sin_coeff 7 = - 1 / 5040"
  by (simp_all add: sin_coeff_def fact_numeral)

lemma sin_taylor7:
  fixes x :: real
  shows "\<bar>sin x - (x - x^3 / 6 + x^5 / 120 - x^7 / 5040)\<bar> \<le> \<bar>x\<bar>^8 / 40320"
proof -
  have p: "(\<Sum>m<8. sin_coeff m * x ^ m) = x - x^3 / 6 + x^5 / 120 - x^7 / 5040"
    unfolding sum_lessThan_8 sin_coeff_values by simp
  have f: "inverse (fact 8 :: real) = 1 / 40320"
    by (simp add: fact_numeral)
  show ?thesis
    using Maclaurin_sin_bound [of x 8] unfolding p f by simp
qed

lemma sin_upper7:
  fixes x :: real
  assumes "0 \<le> x"
  shows "sin x \<le> x - x^3 / 6 + x^5 / 120 - x^7 / 5040 + x^8 / 40320"
  using sin_taylor7 [of x] assms unfolding abs_le_iff by (simp add: abs_of_nonneg)

lemma sin_lower7:
  fixes x :: real
  assumes "0 \<le> x"
  shows "x - x^3 / 6 + x^5 / 120 - x^7 / 5040 - x^8 / 40320 \<le> sin x"
  using sin_taylor7 [of x] assms unfolding abs_le_iff by (simp add: abs_of_nonneg)

lemma pi_lower: "3.141573 < pi"
proof -
  let ?a = "233 / 445 :: real"
  have "sin ?a \<le> ?a - ?a^3 / 6 + ?a^5 / 120 - ?a^7 / 5040 + ?a^8 / 40320"
    by (rule sin_upper7) simp
  also have "\<dots> < 1 / 2"
    by (simp add: power_divide)
  finally have "sin ?a < sin (pi / 6)"
    by (simp only: sin_30)
  moreover have "- (pi / 2) \<le> ?a" "?a \<le> pi / 2" "- (pi / 2) \<le> pi / 6" "pi / 6 \<le> pi / 2"
    using pi_ge_two by simp_all
  ultimately have "?a < pi / 6"
    by (simp only: sin_mono_less_eq)
  then show ?thesis by simp
qed

lemma pi_upper: "pi < 3.141603"
proof -
  let ?b = "477 / 911 :: real"
  have "1 / 2 < ?b - ?b^3 / 6 + ?b^5 / 120 - ?b^7 / 5040 - ?b^8 / 40320"
    by (simp add: power_divide)
  also have "\<dots> \<le> sin ?b"
    by (rule sin_lower7) simp
  finally have "sin (pi / 6) < sin ?b"
    by (simp only: sin_30)
  moreover have "- (pi / 2) \<le> ?b" "?b \<le> pi / 2" "- (pi / 2) \<le> pi / 6" "pi / 6 \<le> pi / 2"
    using pi_ge_two by simp_all
  ultimately have "pi / 6 < ?b"
    by (simp only: sin_mono_less_eq)
  then show ?thesis by simp
qed

lemma distance_m_sql_self: "distance_m_sql lat lat lon lat lon = 0"
  by (simp add: distance_m_sql_def RADIANS_def)

lemma distance_m_sql_sym:
  "distance_m_sql lat1 lat1 lon1 lat2 lon2 = distance_m_sql lat2 lat2 lon2 lat1 lon1"
proof -
  have "(sin (RADIANS (a - b) / 2))\<^sup>2 = (sin (RADIANS (b - a) / 2))\<^sup>2" for a b
  proof -
    have "RADIANS (a - b) / 2 = - (RADIANS (b - a) / 2)"
      by (simp add: RADIANS_def field_simps)
    then show ?thesis
      by (simp only: sin_minus power2_minus)
  qed
  then show ?thesis
    unfolding distance_m_sql_def by (simp add: mult.commute)
qed

lemma distance_m_sql_one_degree:
  "distance_m_sql lat lat lon (lat + 1) lon = 6371000 * pi / 180"
proof -
  have r: "RADIANS (lat + 1 - lat) / 2 = pi / 360" "RADIANS (lon - lon) / 2 = 0"
    by (simp_all add: RADIANS_def)
  have b: "0 \<le> pi / 360" "pi / 360 \<le> pi / 2"
    by simp_all
  have "0 \<le> sin (pi / 360)"
    using b pi_ge_zero by (intro sin_ge_zero) linarith+
  then have "sqrt ((sin (pi / 360))\<^sup>2) = sin (pi / 360)"
    by simp
  moreover have "arcsin (sin (pi / 360)) = pi / 360"
    using b by (intro arcsin_sin) linarith+
  ultimately show ?thesis
    unfolding distance_m_sql_def r by simp
qed

lemma distance_m_sql_half_turn:
  "distance_m_sql 0 0 0 0 180 = 6371000 * pi"
  by (simp add: distance_m_sql_def RADIANS_def)

text \<open>
  C8. The distance column, taken against one reference point: a point is at
  distance 0 from itself; swapping the reference point and the row point does
  not change the distance; and two points one degree of latitude apart on one
  meridian are at \<open>6371000 * pi / 180\<close> metres, which is within 1 m of 111195.
\<close>

theorem haversine_sanity:
  "distance_m_sql lat lat lon lat lon = 0
   \<and> distance_m_sql lat1 lat1 lon1 lat2 lon2 = distance_m_sql lat2 lat2 lon2 lat1 lon1
   \<and> \<bar>distance_m_sql lat lat lon (lat + 1) lon - 111195\<bar> \<le> 1"
proof -
  have "\<bar>6371000 * pi / 180 - 111195\<bar> \<le> 1"
    using pi_lower pi_upper by (simp add: abs_le_iff)
  then show ?thesis
    using distance_m_sql_sym [of lat1 lon1 lat2 lon2]
    by (simp add: distance_m_sql_self distance_m_sql_one_degree)
qed

lemma distance_m_sql_spec:
  "distance_m_sql lat_ref lat_ref lon_ref lat_row lon_row
     = haversine_spec lat_ref lon_ref lat_row lon_row"
proof -
  have d: "RADIANS (a - b) / 2 = (a * pi / 180 - b * pi / 180) / 2" for a b
    by (simp add: RADIANS_def field_simps)
  show ?thesis
    unfolding distance_m_sql_def haversine_spec_def Let_def d
    by (simp only: RADIANS_def)
qed


section \<open>The rows of the nearby statement\<close>

lemma filter_take_sorted:
  fixes f :: "'a \<Rightarrow> real"
  shows "sorted (map f xs) \<Longrightarrow>
         filter (\<lambda>x. f x \<le> r) (take n xs) = take n (filter (\<lambda>x. f x \<le> r) xs)"
proof (induction xs arbitrary: n)
  case Nil
  then show ?case by simp
next
  case (Cons x xs)
  show ?case
  proof (cases n)
    case 0
    then show ?thesis by simp
  next
    case (Suc m)
    show ?thesis
    proof (cases "f x \<le> r")
      case True
      then show ?thesis using Cons Suc by simp
    next
      case False
      then have "\<forall>y \<in> set xs. \<not> f y \<le> r"
        using Cons.prems by fastforce
      then have "filter (\<lambda>x. f x \<le> r) xs = []" "filter (\<lambda>x. f x \<le> r) (take m xs) = []"
        by (auto simp: filter_empty_conv dest: in_set_takeD)
      then show ?thesis using False Suc by simp
    qed
  qed
qed

lemma none_in_radius_beyond:
  fixes f :: "'a \<Rightarrow> real"
  shows "sorted (map f xs) \<Longrightarrow> length (filter (\<lambda>x. f x \<le> r) (take n xs)) < n \<Longrightarrow>
         \<forall>x \<in> set (drop n xs). \<not> f x \<le> r"
proof (induction xs arbitrary: n)
  case Nil
  then show ?case by simp
next
  case (Cons x xs)
  show ?case
  proof (cases n)
    case 0
    then show ?thesis using Cons.prems by simp
  next
    case (Suc m)
    show ?thesis
    proof (cases "f x \<le> r")
      case True
      then have "length (filter (\<lambda>x. f x \<le> r) (take m xs)) < m"
        using Cons.prems Suc by simp
      then have "\<forall>x \<in> set (drop m xs). \<not> f x \<le> r"
        using Cons.prems by (intro Cons.IH) simp_all
      then show ?thesis using Suc by simp
    next
      case False
      then have "\<forall>y \<in> set xs. \<not> f y \<le> r"
        using Cons.prems by fastforce
      then show ?thesis using Suc by (auto dest: in_set_dropD)
    qed
  qed
qed

lemma sorted_nearby_ordered: "sorted (map distance_m (nearby_ordered p1 p2 p3 stops))"
  by (simp add: nearby_ordered_def)

lemma distance_nearby_ordered:
  "st \<in> set (nearby_ordered p1 p2 p3 stops) \<Longrightarrow>
   distance_m st = distance_m_sql p1 p2 p3 (latitude st) (longitude st)"
  by (auto simp: nearby_ordered_def)

lemma distance_nearby_sql:
  "st \<in> set (nearby_sql p1 p2 p3 limit stops) \<Longrightarrow>
   distance_m st = distance_m_sql p1 p2 p3 (latitude st) (longitude st)"
  unfolding nearby_sql_def by (rule distance_nearby_ordered) (rule in_set_takeD)

lemma get_nearby_by_coords_Inr:
  "get_nearby_by_coords dataset lat lon radius limit = Inr resp \<longleftrightarrow>
     (\<exists>stops. dataset = Some stops \<and>
        resp = \<lparr>count = int (length (filter (\<lambda>st. distance_m st \<le> radius)
                                       (nearby_sql lat lat lon limit stops))),
                 results = filter (\<lambda>st. distance_m st \<le> radius)
                             (nearby_sql lat lat lon limit stops),
                 radius_m = radius, reference_coords = (lat, lon)\<rparr>)"
  by (cases dataset) (auto simp: get_nearby_by_coords_def query_stops_def Let_def)

lemma get_nearby_by_name_Inr:
  "get_nearby_by_name dataset name radius limit = Inr resp \<longleftrightarrow>
     (\<exists>stops ref rest. dataset = Some stops
        \<and> ref_sql (''%'' @ str_upper name @ ''%'') stops = ref # rest \<and>
        resp = \<lparr>count = int (length (filter (\<lambda>st. distance_m st \<le> radius)
                    (nearby_sql (stop_lat ref) (stop_lat ref) (stop_lon ref) limit stops))),
                 results = filter (\<lambda>st. distance_m st \<le> radius)
                    (nearby_sql (stop_lat ref) (stop_lat ref) (stop_lon ref) limit stops),
                 radius_m = radius, reference_stop = ref\<rparr>)"
  by (cases dataset)
     (auto simp: get_nearby_by_name_def query_stops_def Let_def split: list.splits)

lemma haversine_nearby_ordered:
  "st \<in> set (nearby_ordered lat lat lon stops) \<Longrightarrow>
   distance_m st = haversine_spec lat lon (latitude st) (longitude st)"
  by (simp add: distance_nearby_ordered distance_m_sql_spec)

lemma haversine_nearby_sql:
  "st \<in> set (nearby_sql lat lat lon limit stops) \<Longrightarrow>
   distance_m st = haversine_spec lat lon (latitude st) (longitude st)"
  by (simp add: distance_nearby_sql distance_m_sql_spec)

text \<open>
  C5. Every candidate row of the nearby statement (one per table row), and so
  every row either nearby function returns, carries as \<open>distance_m\<close> the
  haversine distance of the specification between the single reference point
  (the caller's coordinates, or the coordinates of the resolved reference stop)
  and the row's own coordinates.
\<close>

theorem distance_is_haversine:
  "(\<forall>st \<in> set (nearby_ordered lat lat lon stops).
       distance_m st = haversine_spec lat lon (latitude st) (longitude st))
   \<and> length (nearby_ordered lat lat lon stops) = length stops
   \<and> (get_nearby_by_coords dataset lat lon radius limit = Inr resp \<longrightarrow>
        (\<forall>st \<in> set (results resp).
           distance_m st = haversine_spec lat lon (latitude st) (longitude st)))
   \<and> (get_nearby_by_name dataset name radius limit = Inr resp' \<longrightarrow>
        (\<forall>st \<in> set (results resp').
           distance_m st = haversine_spec (stop_lat (reference_stop resp'))
                             (stop_lon (reference_stop resp')) (latitude st) (longitude st)))"
proof (intro conjI impI ballI)
  fix st assume "st \<in> set (nearby_ordered lat lat lon stops)"
  then show "distance_m st = haversine_spec lat lon (latitude st) (longitude st)"
    by (rule haversine_nearby_ordered)
next
  show "length (nearby_ordered lat lat lon stops) = length stops"
    by (simp add: nearby_ordered_def)
next
  fix st
  assume "get_nearby_by_coords dataset lat lon radius limit = Inr resp"
    and "st \<in> set (results resp)"
  then obtain stops' where "st \<in> set (nearby_sql lat lat lon limit stops')"
    by (auto simp: get_nearby_by_coords_Inr)
  then show "distance_m st = haversine_spec lat lon (latitude st) (longitude st)"
    by (rule haversine_nearby_sql)
next
  fix st
  assume "get_nearby_by_name dataset name radius limit = Inr resp'"
    and "st \<in> set (results resp')"
  then obtain stops' where "st \<in> set (nearby_sql (stop_lat (reference_stop resp'))
      (stop_lat (reference_stop resp')) (stop_lon (reference_stop resp')) limit stops')"
    by (auto simp: get_nearby_by_name_Inr)
  then show "distance_m st = haversine_spec (stop_lat (reference_stop resp'))
      (stop_lon (reference_stop resp')) (latitude st) (longitude st)"
    by (rule haversine_nearby_sql)
qed


section \<open>The example dataset, evaluated\<close>

lemma UPPER_examples:
  "UPPER ''Stop Albert St'' = ''STOP ALBERT ST''" "UPPER ''Far Side'' = ''FAR SIDE''"
  "str_upper ''albert'' = ''ALBERT''"
  by (simp_all add: UPPER_def str_upper_def upper_char_def char_of_eq_iff)

lemma ILIKE_examples:
  "ILIKE ''STOP ALBERT ST'' ''%ALBERT%''" "\<not> ILIKE ''FAR SIDE'' ''%ALBERT%''"
  by (simp_all add: ILIKE_def lower_char_def char_of_eq_iff)

lemma example_ref_sql:
  "ref_sql (''%'' @ str_upper ''albert'' @ ''%'') example_stops = [depot_ref]"
  unfolding ref_sql_def example_stops_def depot_def far_side_def depot_ref_def
  by (simp add: UPPER_examples ILIKE_examples)

lemma example_nearby_ordered:
  "nearby_ordered 0 0 0 example_stops = [depot_row, far_side_row]"
  unfolding nearby_ordered_def example_stops_def depot_def far_side_def
    depot_row_def far_side_row_def
  by (simp add: UPPER_examples distance_m_sql_self distance_m_sql_half_turn not_le)

lemma far_side_not_near: "\<not> 6371000 * pi \<le> 100"
  using pi_ge_two by simp

lemma example_by_coords:
  "get_nearby_by_coords (Some example_stops) 0 0 100 20 =
     Inr \<lparr>count = 1, results = [depot_row], radius_m = 100, reference_coords = (0, 0)\<rparr>"
  by (simp add: get_nearby_by_coords_def query_stops_def nearby_sql_def
        example_nearby_ordered depot_row_def far_side_row_def far_side_not_near)

lemma example_by_name:
  "get_nearby_by_name (Some example_stops) ''albert'' 100 20 =
     Inr \<lparr>count = 1, results = [depot_row], radius_m = 100, reference_stop = depot_ref\<rparr>"
proof -
  have "stop_lat depot_ref = 0" "stop_lon depot_ref = 0"
    by (simp_all add: depot_ref_def)
  then show ?thesis
    using example_ref_sql
    by (simp add: get_nearby_by_name_def query_stops_def nearby_sql_def
        example_nearby_ordered depot_row_def far_side_row_def far_side_not_near)
qed

theorem distance_is_haversine_witness:
  "get_nearby_by_coords (Some example_stops) 0 0 100 20 =
     Inr \<lparr>count = 1, results = [depot_row], radius_m = 100, reference_coords = (0, 0)\<rparr>
   \<and> get_nearby_by_name (Some example_stops) ''albert'' 100 20 =
     Inr \<lparr>count = 1, results = [depot_row], radius_m = 100, reference_stop = depot_ref\<rparr>
   \<and> distance_m depot_row = haversine_spec 0 0 (latitude depot_row) (longitude depot_row)
   \<and> distance_m far_side_row
       = haversine_spec 0 0 (latitude far_side_row) (longitude far_side_row)"
  using distance_is_haversine [of 0 0 example_stops "Some example_stops" 100 20
      "\<lparr>count = 1, results = [depot_row], radius_m = 100, reference_coords = (0, 0)\<rparr>"
      "''albert''"
      "\<lparr>count = 1, results = [depot_row], radius_m = 100, reference_stop = depot_ref\<rparr>"]
    example_by_coords example_by_name
  by (simp add: example_nearby_ordered)

section \<open>Properties of the radius filter\<close>

lemma distance_nearby_sql_nonneg:
  "st \<in> set (nearby_sql p p q limit stops) \<Longrightarrow> 0 \<le> distance_m st"
  by (simp add: distance_nearby_sql distance_m_sql_nonneg)

lemma radius_filter_rows:
  assumes "\<forall>st \<in> set rows. 0 \<le> distance_m st"
  shows "(radius = 0 \<longrightarrow>
            filter (\<lambda>st. distance_m st \<le> radius) rows = filter (\<lambda>st. distance_m st = 0) rows)
         \<and> (radius < 0 \<longrightarrow> filter (\<lambda>st. distance_m st \<le> radius) rows = [])"
proof (intro conjI impI)
  assume "radius = 0"
  then show "filter (\<lambda>st. distance_m st \<le> radius) rows = filter (\<lambda>st. distance_m st = 0) rows"
    using assms by (intro filter_cong) auto
next
  assume "radius < 0"
  then show "filter (\<lambda>st. distance_m st \<le> radius) rows = []"
    using assms by (fastforce simp: filter_empty_conv)
qed

text \<open>
  C3. In both nearby functions the result is the list of the rows returned by
  the store with \<open>distance_m \<le> radius_m\<close>, the boundary included, in the
  store's order. For \<open>radius_m = 0\<close> these are the rows at distance exactly 0,
  and for \<open>radius_m < 0\<close> there are none, whatever the table holds.
\<close>

theorem radius_filter:
  "(get_nearby_by_coords (Some stops) lat lon radius limit = Inr resp \<longrightarrow>
      (let returned = nearby_sql lat lat lon limit stops
       in results resp = filter (\<lambda>st. distance_m st \<le> radius) returned
          \<and> (radius = 0 \<longrightarrow> results resp = filter (\<lambda>st. distance_m st = 0) returned)
          \<and> (radius < 0 \<longrightarrow> results resp = [])))
   \<and> (get_nearby_by_name (Some stops) name radius limit = Inr resp' \<longrightarrow>
      (let ref = reference_stop resp';
           returned = nearby_sql (stop_lat ref) (stop_lat ref) (stop_lon ref) limit stops
       in results resp' = filter (\<lambda>st. distance_m st \<le> radius) returned
          \<and> (radius = 0 \<longrightarrow> results resp' = filter (\<lambda>st. distance_m st = 0) returned)
          \<and> (radius < 0 \<longrightarrow> results resp' = [])))"
proof (intro conjI impI)
  assume "get_nearby_by_coords (Some stops) lat lon radius limit = Inr resp"
  then have r: "results resp
      = filter (\<lambda>st. distance_m st \<le> radius) (nearby_sql lat lat lon limit stops)"
    by (auto simp: get_nearby_by_coords_Inr)
  have "\<forall>st \<in> set (nearby_sql lat lat lon limit stops). 0 \<le> distance_m st"
    by (simp add: distance_nearby_sql_nonneg)
  from radius_filter_rows [OF this, of radius] r
  show "let returned = nearby_sql lat lat lon limit stops
       in results resp = filter (\<lambda>st. distance_m st \<le> radius) returned
          \<and> (radius = 0 \<longrightarrow> results resp = filter (\<lambda>st. distance_m st = 0) returned)
          \<and> (radius < 0 \<longrightarrow> results resp = [])"
    by (simp add: Let_def)
next
  let ?ref = "reference_stop resp'"
  let ?rows = "nearby_sql (stop_lat ?ref) (stop_lat ?ref) (stop_lon ?ref) limit stops"
  assume "get_nearby_by_name (Some stops) name radius limit = Inr resp'"
  then have r: "results resp' = filter (\<lambda>st. distance_m st \<le> radius) ?rows"
    by (auto simp: get_nearby_by_name_Inr)
  have "\<forall>st \<in> set ?rows. 0 \<le> distance_m st"
    by (simp add: distance_nearby_sql_nonneg)
  from radius_filter_rows [OF this, of radius] r
  show "let ref = reference_stop resp';
           returned = nearby_sql (stop_lat ref) (stop_lat ref) (stop_lon ref) limit stops
       in results resp' = filter (\<lambda>st. distance_m st \<le> radius) returned
          \<and> (radius = 0 \<longrightarrow> results resp' = filter (\<lambda>st. distance_m st = 0) returned)
          \<and> (radius < 0 \<longrightarrow> results resp' = [])"
    by (simp add: Let_def)
qed

lemma example_by_coords_radius:
  "r \<le> 100 \<Longrightarrow> get_nearby_by_coords (Some example_stops) 0 0 r 20 =
     Inr \<lparr>count = (if 0 \<le> r then 1 else 0), results = (if 0 \<le> r then [depot_row] else []),
          radius_m = r, reference_coords = (0, 0)\<rparr>"
  using pi_ge_two
  by (simp add: get_nearby_by_coords_def query_stops_def nearby_sql_def
        example_nearby_ordered depot_row_def far_side_row_def)

lemma example_by_name_radius:
  "r \<le> 100 \<Longrightarrow> get_nearby_by_name (Some example_stops) ''albert'' r 20 =
     Inr \<lparr>count = (if 0 \<le> r then 1 else 0), results = (if 0 \<le> r then [depot_row] else []),
          radius_m = r, reference_stop = depot_ref\<rparr>"
proof -
  assume "r \<le> 100"
  moreover have "stop_lat depot_ref = 0" "stop_lon depot_ref = 0"
    by (simp_all add: depot_ref_def)
  ultimately show ?thesis
    using example_ref_sql pi_ge_two
    by (simp add: get_nearby_by_name_def query_stops_def nearby_sql_def
        example_nearby_ordered depot_row_def far_side_row_def)
qed

theorem radius_filter_witness:
  "get_nearby_by_coords (Some example_stops) 0 0 0 20 =
     Inr \<lparr>count = 1, results = [depot_row], radius_m = 0, reference_coords = (0, 0)\<rparr>
   \<and> get_nearby_by_name (Some example_stops) ''albert'' (- 1) 20 =
     Inr \<lparr>count = 0, results = [], radius_m = - 1, reference_stop = depot_ref\<rparr>
   \<and> filter (\<lambda>st. distance_m st = 0) (nearby_sql 0 0 0 20 example_stops) = [depot_row]
   \<and> filter (\<lambda>st. distance_m st \<le> - 1) (nearby_sql 0 0 0 20 example_stops) = []"
proof -
  let ?c = "\<lparr>count = 1, results = [depot_row], radius_m = 0, reference_coords = (0, 0)\<rparr>"
  let ?n = "\<lparr>count = 0, results = [], radius_m = - 1, reference_stop = depot_ref\<rparr>"
  have c: "get_nearby_by_coords (Some example_stops) 0 0 0 20 = Inr ?c"
    by (simp add: example_by_coords_radius)
  have n: "get_nearby_by_name (Some example_stops) ''albert'' (- 1) 20 = Inr ?n"
    by (simp add: example_by_name_radius)
  note at_zero = radius_filter [of example_stops 0 0 0 20 ?c "''albert''" ?n,
      unfolded Let_def, THEN conjunct1, rule_format, OF c]
  then have "results ?c = filter (\<lambda>st. distance_m st = 0) (nearby_sql 0 0 0 20 example_stops)"
    by blast
  then have 1: "filter (\<lambda>st. distance_m st = 0) (nearby_sql 0 0 0 20 example_stops)
      = [depot_row]"
    by simp
  note negative = radius_filter [of example_stops 0 0 "- 1" 20 ?c "''albert''" ?n,
      unfolded Let_def, THEN conjunct2, rule_format, OF n]
  then have "results ?n = filter (\<lambda>st. distance_m st \<le> - 1)
      (nearby_sql (stop_lat (reference_stop ?n)) (stop_lat (reference_stop ?n))
         (stop_lon (reference_stop ?n)) 20 example_stops)"
    by blast
  then have 2: "filter (\<lambda>st. distance_m st \<le> - 1) (nearby_sql 0 0 0 20 example_stops) = []"
    by (simp add: depot_ref_def)
  show ?thesis
    using c n 1 2 by simp
qed


section \<open>Properties of the nearby functions\<close>

lemma nearby_results_shape:
  fixes rows :: "nearby_stop list" and radius :: real and limit :: nat
  assumes "sorted (map distance_m rows)"
  defines "res \<equiv> filter (\<lambda>st. distance_m st \<le> radius) (take limit rows)"
  shows "res = take limit (filter (\<lambda>st. distance_m st \<le> radius) rows)"
    and "sorted (map distance_m res)"
    and "length res \<le> limit"
    and "length res < limit \<Longrightarrow> \<forall>st \<in> set (drop limit rows). \<not> distance_m st \<le> radius"
    and "length res < limit \<Longrightarrow>
           \<forall>st \<in> set rows. distance_m st \<le> radius \<longrightarrow> st \<in> set res"
proof -
  show eq: "res = take limit (filter (\<lambda>st. distance_m st \<le> radius) rows)"
    unfolding res_def using assms(1) by (rule filter_take_sorted)
  have "sorted (map distance_m (take limit rows))"
    using assms(1) by (simp add: take_map [symmetric] sorted_wrt_take)
  then show "sorted (map distance_m res)"
    unfolding res_def by (rule sorted_filter)
  show "length res \<le> limit"
    unfolding eq by simp
  show beyond: "\<forall>st \<in> set (drop limit rows). \<not> distance_m st \<le> radius"
    if "length res < limit"
    using assms(1) that unfolding res_def by (rule none_in_radius_beyond)
  show "\<forall>st \<in> set rows. distance_m st \<le> radius \<longrightarrow> st \<in> set res"
    if "length res < limit"
  proof (intro ballI impI)
    fix st assume st: "st \<in> set rows" "distance_m st \<le> radius"
    have "set rows = set (take limit rows) \<union> set (drop limit rows)"
      by (metis append_take_drop_id set_append)
    then have "st \<in> set (take limit rows)"
      using st beyond [OF that] by auto
    then show "st \<in> set res"
      using st(2) by (simp add: res_def)
  qed
qed

text \<open>
  C6, as the code has it. The store returns the first \<open>limit\<close> rows in ascending
  order of \<open>distance_m\<close> and the radius filter runs on these rows only. The
  result is distance-ascending and has at most \<open>limit\<close> rows. Since the rows
  are ordered by the very column the filter tests, filtering the truncated list
  gives the same list as truncating the filtered one: the result is the first
  \<open>limit\<close> in-radius rows of the table, and when it is shorter than \<open>limit\<close>
  it holds every in-radius row.
\<close>

theorem limit_then_filter:
  "(get_nearby_by_coords (Some stops) lat lon radius limit = Inr resp \<longrightarrow>
      (let ordered = nearby_ordered lat lat lon stops
       in results resp = filter (\<lambda>st. distance_m st \<le> radius) (take limit ordered)
          \<and> results resp = take limit (filter (\<lambda>st. distance_m st \<le> radius) ordered)
          \<and> sorted (map distance_m (results resp))
          \<and> length (results resp) \<le> limit
          \<and> (length (results resp) < limit \<longrightarrow>
               (\<forall>st \<in> set ordered. distance_m st \<le> radius \<longrightarrow> st \<in> set (results resp)))))
   \<and> (get_nearby_by_name (Some stops) name radius limit = Inr resp' \<longrightarrow>
      (let ref = reference_stop resp';
           ordered = nearby_ordered (stop_lat ref) (stop_lat ref) (stop_lon ref) stops
       in results resp' = filter (\<lambda>st. distance_m st \<le> radius) (take limit ordered)
          \<and> results resp' = take limit (filter (\<lambda>st. distance_m st \<le> radius) ordered)
          \<and> sorted (map distance_m (results resp'))
          \<and> length (results resp') \<le> limit
          \<and> (length (results resp') < limit \<longrightarrow>
               (\<forall>st \<in> set ordered. distance_m st \<le> radius \<longrightarrow> st \<in> set (results resp')))))"
proof (intro conjI impI)
  let ?rows = "nearby_ordered lat lat lon stops"
  assume "get_nearby_by_coords (Some stops) lat lon radius limit = Inr resp"
  then have r: "results resp = filter (\<lambda>st. distance_m st \<le> radius) (take limit ?rows)"
    by (auto simp: get_nearby_by_coords_Inr nearby_sql_def)
  show "let ordered = ?rows
       in results resp = filter (\<lambda>st. distance_m st \<le> radius) (take limit ordered)
          \<and> results resp = take limit (filter (\<lambda>st. distance_m st \<le> radius) ordered)
          \<and> sorted (map distance_m (results resp))
          \<and> length (results resp) \<le> limit
          \<and> (length (results resp) < limit \<longrightarrow>
               (\<forall>st \<in> set ordered. distance_m st \<le> radius \<longrightarrow> st \<in> set (results resp)))"
    unfolding Let_def r
    using nearby_results_shape [where rows = ?rows and radius = radius and limit = limit,
        OF sorted_nearby_ordered]
    by blast
next
  let ?ref = "reference_stop resp'"
  let ?rows = "nearby_ordered (stop_lat ?ref) (stop_lat ?ref) (stop_lon ?ref) stops"
  assume "get_nearby_by_name (Some stops) name radius limit = Inr resp'"
  then have r: "results resp' = filter (\<lambda>st. distance_m st \<le> radius) (take limit ?rows)"
    by (auto simp: get_nearby_by_name_Inr nearby_sql_def)
  show "let ref = reference_stop resp';
           ordered = nearby_ordered (stop_lat ref) (stop_lat ref) (stop_lon ref) stops
       in results resp' = filter (\<lambda>st. distance_m st \<le> radius) (take limit ordered)
          \<and> results resp' = take limit (filter (\<lambda>st. distance_m st \<le> radius) ordered)
          \<and> sorted (map distance_m (results resp'))
          \<and> length (results resp') \<le> limit
          \<and> (length (results resp') < limit \<longrightarrow>
               (\<forall>st \<in> set ordered. distance_m st \<le> radius \<longrightarrow> st \<in> set (results resp')))"
    unfolding Let_def r
    using nearby_results_shape [where rows = ?rows and radius = radius and limit = limit,
        OF sorted_nearby_ordered]
    by blast
qed

text \<open>
  C6, as stated, says that the result can be shorter than \<open>limit\<close> while
  in-radius rows remain beyond the \<open>limit\<close>'th closest row. No input of either
  nearby function does that.
\<close>

theorem under_return_impossible:
  "\<not> (\<exists>stops lat lon radius limit resp.
         get_nearby_by_coords (Some stops) lat lon radius limit = Inr resp
         \<and> length (results resp) < limit
         \<and> (\<exists>st \<in> set (drop limit (nearby_ordered lat lat lon stops)).
               distance_m st \<le> radius))
   \<and> \<not> (\<exists>stops name radius limit resp.
         get_nearby_by_name (Some stops) name radius limit = Inr resp
         \<and> length (results resp) < limit
         \<and> (\<exists>st \<in> set (drop limit (nearby_ordered (stop_lat (reference_stop resp))
                  (stop_lat (reference_stop resp)) (stop_lon (reference_stop resp)) stops)).
               distance_m st \<le> radius))"
proof (intro conjI notI; elim exE conjE bexE)
  fix stops lat lon radius limit and resp :: by_coords_response and st
  let ?rows = "nearby_ordered lat lat lon stops"
  assume "get_nearby_by_coords (Some stops) lat lon radius limit = Inr resp"
  then have r: "results resp = filter (\<lambda>st. distance_m st \<le> radius) (take limit ?rows)"
    by (auto simp: get_nearby_by_coords_Inr nearby_sql_def)
  assume "length (results resp) < limit" "st \<in> set (drop limit ?rows)"
    "distance_m st \<le> radius"
  then show False
    using nearby_results_shape(4) [where rows = ?rows and radius = radius and limit = limit,
        OF sorted_nearby_ordered]
    unfolding r by blast
next
  fix stops name radius limit and resp :: by_name_response and st
  let ?ref = "reference_stop resp"
  let ?rows = "nearby_ordered (stop_lat ?ref) (stop_lat ?ref) (stop_lon ?ref) stops"
  assume "get_nearby_by_name (Some stops) name radius limit = Inr resp"
  then have r: "results resp = filter (\<lambda>st. distance_m st \<le> radius) (take limit ?rows)"
    by (auto simp: get_nearby_by_name_Inr nearby_sql_def)
  assume "length (results resp) < limit" "st \<in> set (drop limit ?rows)"
    "distance_m st \<le> radius"
  then show False
    using nearby_results_shape(4) [where rows = ?rows and radius = radius and limit = limit,
        OF sorted_nearby_ordered]
    unfolding r by blast
qed


theorem limit_then_filter_witness:
  "get_nearby_by_coords (Some example_stops) 0 0 100 20 =
     Inr \<lparr>count = 1, results = [depot_row], radius_m = 100, reference_coords = (0, 0)\<rparr>
   \<and> get_nearby_by_name (Some example_stops) ''albert'' 100 20 =
     Inr \<lparr>count = 1, results = [depot_row], radius_m = 100, reference_stop = depot_ref\<rparr>
   \<and> length [depot_row] < 20
   \<and> take 20 (filter (\<lambda>st. distance_m st \<le> 100) (nearby_ordered 0 0 0 example_stops))
       = [depot_row]
   \<and> \<not> distance_m far_side_row \<le> 100"
proof -
  let ?c = "\<lparr>count = 1, results = [depot_row], radius_m = 100, reference_coords = (0, 0)\<rparr>"
  let ?n = "\<lparr>count = 1, results = [depot_row], radius_m = 100, reference_stop = depot_ref\<rparr>"
  note by_coords = limit_then_filter [of example_stops 0 0 100 20 ?c "''albert''" ?n,
      unfolded Let_def, THEN conjunct1, rule_format, OF example_by_coords]
  then have "results ?c
      = take 20 (filter (\<lambda>st. distance_m st \<le> 100) (nearby_ordered 0 0 0 example_stops))"
    by blast
  then have 1: "take 20 (filter (\<lambda>st. distance_m st \<le> 100)
      (nearby_ordered 0 0 0 example_stops)) = [depot_row]"
    by simp
  have "length (results ?c) < 20"
    by simp
  then have "\<forall>st \<in> set (nearby_ordered 0 0 0 example_stops).
      distance_m st \<le> 100 \<longrightarrow> st \<in> set (results ?c)"
    using by_coords by blast
  then have 2: "\<not> distance_m far_side_row \<le> 100"
    by (simp add: example_nearby_ordered depot_row_def far_side_row_def)
  show ?thesis
    using example_by_coords example_by_name 1 2 by simp
qed

text \<open>
  C10. Every successful response of the four controller functions has
  \<open>count\<close> equal to the length of its \<open>results\<close>; in the two nearby
  functions the counted list is the one left by the radius filter.
\<close>

theorem count_is_length:
  "(list_stops dataset limit offset name = Inr listed \<longrightarrow>
      count listed = int (length (results listed)))
   \<and> (get_stop_by_code dataset code = Inr found \<longrightarrow>
      count found = int (length (results found)))
   \<and> (get_nearby_by_name dataset pattern radius limit' = Inr by_name \<longrightarrow>
      count by_name = int (length (results by_name))
      \<and> (\<forall>st \<in> set (results by_name). distance_m st \<le> radius))
   \<and> (get_nearby_by_coords dataset lat lon radius' limit'' = Inr by_coords \<longrightarrow>
      count by_coords = int (length (results by_coords))
      \<and> (\<forall>st \<in> set (results by_coords). distance_m st \<le> radius'))"
proof (intro conjI impI)
  assume "list_stops dataset limit offset name = Inr listed"
  then show "count listed = int (length (results listed))"
    by (auto simp: list_stops_def Let_def split: sum.splits)
next
  assume "get_stop_by_code dataset code = Inr found"
  then show "count found = int (length (results found))"
    by (auto simp: get_stop_by_code_def split: sum.splits if_splits)
next
  assume *: "get_nearby_by_name dataset pattern radius limit' = Inr by_name"
  then show "count by_name = int (length (results by_name))"
    by (auto simp: get_nearby_by_name_Inr)
  from * show "\<forall>st \<in> set (results by_name). distance_m st \<le> radius"
    by (auto simp: get_nearby_by_name_Inr)
next
  assume *: "get_nearby_by_coords dataset lat lon radius' limit'' = Inr by_coords"
  then show "count by_coords = int (length (results by_coords))"
    by (auto simp: get_nearby_by_coords_Inr)
  from * show "\<forall>st \<in> set (results by_coords). distance_m st \<le> radius'"
    by (auto simp: get_nearby_by_coords_Inr)
qed

lemma example_list_stops:
  "list_stops (Some example_stops) 50 0 None =
     Inr \<lparr>count = 2, results = [summary_of depot, summary_of far_side]\<rparr>"
  by (simp add: list_stops_def query_stops_def list_sql_def example_stops_def
        summary_of_def depot_def far_side_def)

lemma example_get_stop_by_code:
  "get_stop_by_code (Some example_stops) 2 =
     Inr \<lparr>count = 1, results = [far_side\<lparr>stop_name := ''FAR SIDE''\<rparr>]\<rparr>"
  by (simp add: get_stop_by_code_def query_stops_def by_code_sql_def example_stops_def
        depot_def far_side_def UPPER_examples)

theorem count_is_length_witness:
  "list_stops (Some example_stops) 50 0 None =
     Inr \<lparr>count = 2, results = [summary_of depot, summary_of far_side]\<rparr>
   \<and> get_stop_by_code (Some example_stops) 2 =
     Inr \<lparr>count = 1, results = [far_side\<lparr>stop_name := ''FAR SIDE''\<rparr>]\<rparr>
   \<and> get_nearby_by_name (Some example_stops) ''albert'' 100 20 =
     Inr \<lparr>count = 1, results = [depot_row], radius_m = 100, reference_stop = depot_ref\<rparr>
   \<and> get_nearby_by_coords (Some example_stops) 0 0 100 20 =
     Inr \<lparr>count = 1, results = [depot_row], radius_m = 100, reference_coords = (0, 0)\<rparr>
   \<and> (2::int) = int (length [summary_of depot, summary_of far_side])
   \<and> (1::int) = int (length [depot_row])"
  using count_is_length [of "Some example_stops" 50 0 None
      "\<lparr>count = 2, results = [summary_of depot, summary_of far_side]\<rparr>"
      2 "\<lparr>count = 1, results = [far_side\<lparr>stop_name := ''FAR SIDE''\<rparr>]\<rparr>"
      "''albert''" 100 20
      "\<lparr>count = 1, results = [depot_row], radius_m = 100, reference_stop = depot_ref\<rparr>"
      0 0 100 20
      "\<lparr>count = 1, results = [depot_row], radius_m = 100, reference_coords = (0, 0)\<rparr>"]
    example_list_stops example_get_stop_by_code example_by_name example_by_coords
  by simp


section \<open>Properties of the reference resolution\<close>












declare like.simps [simp del]





















end
